theory Spec2Isabelle
  imports Complex_Main "HOL-Library.Char_ord" "HOL-Library.List_Lexorder" "HOL-Library.Multiset"
begin

section \<open>The unified cache (MemoryCache, LocalStorageCache, UnifiedCache)\<close>

text \<open>
  Source: the classes \<open>MemoryCache\<close>, \<open>LocalStorageCache\<close> and \<open>UnifiedCache\<close> and the
  function \<open>generateCacheKey\<close> of the unified-cache module
  (\<^verbatim>\<open>src/lib/version_check.ts\<close>, second part), and the hook \<open>useCachedData\<close>
  (\<^verbatim>\<open>src/hooks/useDoubanInfo.ts\<close>, second part).

  Conventions of the embedding.
  \<^item> \<open>Date.now()\<close> is an argument \<open>now\<close> (milliseconds, an \<open>int\<close>) of every operation
    that reads the clock; one synchronous call of the facade reads one clock value.
  \<^item> A time-to-live is a number of seconds, a \<open>rat\<close>; the division by 1000 of the source
    is the exact division of rationals.
  \<^item> The cached payload has type \<open>'v\<close>. The getters of the source return \<open>T | null\<close>
    and use \<open>null\<close> for a miss, so \<open>'v\<close> stands for the non-null values of \<open>T\<close> and a
    getter returns a \<open>'v option\<close>, \<open>None\<close> being \<open>null\<close>.
\<close>

subsection \<open>Cache entries\<close>

record 'v CacheEntry =
  data :: 'v
  timestamp :: int
  ttl :: rat

text \<open>\<open>(now - entry.timestamp) / 1000 > entry.ttl\<close>, the expiry test of both tiers.\<close>

definition elapsed :: "int \<Rightarrow> 'v CacheEntry \<Rightarrow> rat" where
  "elapsed now entry = of_int (now - timestamp entry) / 1000"

definition expired :: "int \<Rightarrow> 'v CacheEntry \<Rightarrow> bool" where
  "expired now entry = (elapsed now entry > ttl entry)"

subsection \<open>The JavaScript \<open>Map\<close>: insertion-ordered, oldest entry first\<close>

text \<open>
  \<open>Map.prototype.set\<close> on a key that is present replaces the value and keeps the key's
  position; on a new key it appends. \<open>delete\<close> removes the key. \<open>keys().next().value\<close>
  is the first key, or \<open>undefined\<close> on an empty map.
\<close>

fun Map_set :: "'k \<Rightarrow> 'a \<Rightarrow> ('k \<times> 'a) list \<Rightarrow> ('k \<times> 'a) list" where
  "Map_set k v [] = [(k, v)]"
| "Map_set k v ((k', v') # m) = (if k' = k then (k, v) # m else (k', v') # Map_set k v m)"

definition Map_delete :: "'k \<Rightarrow> ('k \<times> 'a) list \<Rightarrow> ('k \<times> 'a) list" where
  "Map_delete k m = filter (\<lambda>kv. fst kv \<noteq> k) m"

definition Map_get :: "('k \<times> 'a) list \<Rightarrow> 'k \<Rightarrow> 'a option" where
  "Map_get m k = map_of m k"

definition Map_first_key :: "('k \<times> 'a) list \<Rightarrow> 'k option" where
  "Map_first_key m = (case m of [] \<Rightarrow> None | kv # _ \<Rightarrow> Some (fst kv))"

subsection \<open>MemoryCache\<close>

record 'v MemoryCache =
  store :: "(string \<times> 'v CacheEntry) list"
  maxSize :: int

text \<open>
  \<open>set\<close>: when \<open>store.size >= maxSize\<close> the first key of the map is deleted, unless it is
  \<open>undefined\<close> (empty map) or the empty string (\<open>if (oldestKey)\<close> is a truthiness test);
  then the entry is stored with \<open>Map.set\<close>.
\<close>

definition MemoryCache_set ::
  "int \<Rightarrow> string \<Rightarrow> 'v \<Rightarrow> rat \<Rightarrow> 'v MemoryCache \<Rightarrow> 'v MemoryCache" where
  "MemoryCache_set now key d ttlSeconds c =
     (let st = (if int (length (store c)) \<ge> maxSize c
                then (case Map_first_key (store c) of
                        None \<Rightarrow> store c
                      | Some oldestKey \<Rightarrow>
                          if oldestKey \<noteq> [] then Map_delete oldestKey (store c) else store c)
                else store c)
      in c\<lparr>store := Map_set key \<lparr>data = d, timestamp = now, ttl = ttlSeconds\<rparr> st\<rparr>)"

text \<open>
  \<open>get\<close>: a missing key is a miss; an expired entry is deleted and is a miss; a live entry
  is deleted and set again, which moves it to the end of the map, and its data is returned.
\<close>

definition MemoryCache_get ::
  "int \<Rightarrow> string \<Rightarrow> 'v MemoryCache \<Rightarrow> 'v option \<times> 'v MemoryCache" where
  "MemoryCache_get now key c =
     (case Map_get (store c) key of
        None \<Rightarrow> (None, c)
      | Some entry \<Rightarrow>
          if expired now entry
          then (None, c\<lparr>store := Map_delete key (store c)\<rparr>)
          else (Some (data entry),
                c\<lparr>store := Map_set key entry (Map_delete key (store c))\<rparr>))"

definition MemoryCache_delete :: "string \<Rightarrow> 'v MemoryCache \<Rightarrow> 'v MemoryCache" where
  "MemoryCache_delete key c = c\<lparr>store := Map_delete key (store c)\<rparr>"

definition MemoryCache_clear :: "'v MemoryCache \<Rightarrow> 'v MemoryCache" where
  "MemoryCache_clear c = c\<lparr>store := []\<rparr>"

definition MemoryCache_new :: "int \<Rightarrow> 'v MemoryCache" where
  "MemoryCache_new n = \<lparr>store = [], maxSize = n\<rparr>"

subsection \<open>The host's \<open>localStorage\<close>\<close>

text \<open>
  What is stored under a key is a string; the cache only ever asks whether it is empty,
  whether \<open>JSON.parse\<close> and the field accesses on it throw, and otherwise reads the entry.
  \<^item> \<open>Blank\<close>: the empty string (falsy, so \<open>if (!stored)\<close> treats it like an absent key);
  \<^item> \<open>Corrupt\<close>: a string on which \<open>JSON.parse\<close> or the reads of \<open>timestamp\<close>/\<open>ttl\<close> throw;
  \<^item> \<open>Entry e\<close>: the serialisation of a cache entry (payloads are taken to survive the
    JSON round trip unchanged).
  \<open>setItem\<close> throws when the host refuses the write; which writes fit is the host's
  decision, the field \<open>fits\<close>. The field \<open>calls\<close> records every mutating call made on the
  host object, in order.
\<close>

datatype 'v item = Blank | Corrupt | Entry "'v CacheEntry"

datatype host_call = SetItem string | RemoveItem string

datatype exn = QuotaExceededError

record 'v Storage =
  items :: "(string \<times> 'v item) list"
  fits :: "(string \<times> 'v item) list \<Rightarrow> bool"
  calls :: "host_call list"

definition getItem :: "string \<Rightarrow> 'v Storage \<Rightarrow> 'v item option" where
  "getItem k ls = map_of (items ls) k"

definition setItem :: "string \<Rightarrow> 'v item \<Rightarrow> 'v Storage \<Rightarrow> (exn + unit) \<times> 'v Storage" where
  "setItem k v ls =
     (let ls' = ls\<lparr>calls := calls ls @ [SetItem k]\<rparr>; items' = Map_set k v (items ls)
      in if fits ls items' then (Inr (), ls'\<lparr>items := items'\<rparr>)
         else (Inl QuotaExceededError, ls'))"

definition removeItem :: "string \<Rightarrow> 'v Storage \<Rightarrow> 'v Storage" where
  "removeItem k ls = ls\<lparr>items := Map_delete k (items ls), calls := calls ls @ [RemoveItem k]\<rparr>"

text \<open>\<open>localStorage.key(i)\<close> for \<open>i = 0 .. length - 1\<close>.\<close>

definition storage_keys :: "'v Storage \<Rightarrow> string list" where
  "storage_keys ls = map fst (items ls)"

subsection \<open>LocalStorageCache\<close>

text \<open>\<open>typeof localStorage === 'undefined'\<close> is the storage \<open>None\<close>.\<close>

definition startsWith :: "string \<Rightarrow> string \<Rightarrow> bool" where
  "startsWith s p = (take (length p) s = p)"

definition getFullKey :: "string \<Rightarrow> string \<Rightarrow> string" where
  "getFullKey pfx key = pfx @ key"

text \<open>
  The loop of \<open>cleanExpired\<close> over the keys of the storage: a key that is empty or outside
  the namespace is skipped; a blank item is skipped; an item that does not parse, or whose
  entry is expired, is collected.
\<close>

fun keysToDelete :: "string \<Rightarrow> int \<Rightarrow> 'v Storage \<Rightarrow> string list \<Rightarrow> string list" where
  "keysToDelete pfx now ls [] = []"
| "keysToDelete pfx now ls (key # ks) =
     (if key = [] \<or> \<not> startsWith key pfx then keysToDelete pfx now ls ks
      else (case getItem key ls of
              None \<Rightarrow> keysToDelete pfx now ls ks
            | Some Blank \<Rightarrow> keysToDelete pfx now ls ks
            | Some Corrupt \<Rightarrow> key # keysToDelete pfx now ls ks
            | Some (Entry entry) \<Rightarrow>
                if expired now entry then key # keysToDelete pfx now ls ks
                else keysToDelete pfx now ls ks))"

definition cleanExpired :: "string \<Rightarrow> int \<Rightarrow> 'v Storage option \<Rightarrow> nat \<times> 'v Storage option" where
  "cleanExpired pfx now lso =
     (case lso of
        None \<Rightarrow> (0, None)
      | Some ls \<Rightarrow>
          (let ks = keysToDelete pfx now ls (storage_keys ls)
           in (length ks, Some (foldl (\<lambda>l k. removeItem k l) ls ks))))"

text \<open>
  \<open>set\<close>: the first \<open>setItem\<close> is inside \<open>try\<close>; its \<open>catch\<close> calls \<open>cleanExpired\<close> and
  tries \<open>setItem\<close> again inside a second \<open>try\<close> whose \<open>catch\<close> is empty. The first component
  of the result is \<open>Inl\<close> when an exception leaves the method.
\<close>

definition LocalStorageCache_set ::
  "string \<Rightarrow> int \<Rightarrow> string \<Rightarrow> 'v \<Rightarrow> rat \<Rightarrow> 'v Storage option \<Rightarrow> (exn + unit) \<times> 'v Storage option" where
  "LocalStorageCache_set pfx now key d ttlSeconds lso =
     (case lso of
        None \<Rightarrow> (Inr (), None)
      | Some ls \<Rightarrow>
          (let fullKey = getFullKey pfx key;
               entry = \<lparr>data = d, timestamp = now, ttl = ttlSeconds\<rparr>
           in case setItem fullKey (Entry entry) ls of
                (Inr _, ls1) \<Rightarrow> (Inr (), Some ls1)
              | (Inl _, ls1) \<Rightarrow>
                  (case snd (cleanExpired pfx now (Some ls1)) of
                     None \<Rightarrow> (Inr (), None)
                   | Some ls2 \<Rightarrow>
                       (case setItem fullKey (Entry entry) ls2 of
                          (Inr _, ls3) \<Rightarrow> (Inr (), Some ls3)
                        | (Inl _, ls3) \<Rightarrow> (Inr (), Some ls3)))))"

definition LocalStorageCache_get ::
  "string \<Rightarrow> int \<Rightarrow> string \<Rightarrow> 'v Storage option \<Rightarrow> 'v option \<times> 'v Storage option" where
  "LocalStorageCache_get pfx now key lso =
     (case lso of
        None \<Rightarrow> (None, None)
      | Some ls \<Rightarrow>
          (let fullKey = getFullKey pfx key
           in case getItem fullKey ls of
                None \<Rightarrow> (None, Some ls)
              | Some Blank \<Rightarrow> (None, Some ls)
              | Some Corrupt \<Rightarrow> (None, Some (removeItem fullKey ls))
              | Some (Entry entry) \<Rightarrow>
                  if expired now entry then (None, Some (removeItem fullKey ls))
                  else (Some (data entry), Some ls)))"

definition LocalStorageCache_delete :: "string \<Rightarrow> string \<Rightarrow> 'v Storage option \<Rightarrow> 'v Storage option" where
  "LocalStorageCache_delete pfx key lso =
     (case lso of None \<Rightarrow> None | Some ls \<Rightarrow> Some (removeItem (getFullKey pfx key) ls))"

definition LocalStorageCache_clear :: "string \<Rightarrow> 'v Storage option \<Rightarrow> 'v Storage option" where
  "LocalStorageCache_clear pfx lso =
     (case lso of
        None \<Rightarrow> None
      | Some ls \<Rightarrow>
          Some (foldl (\<lambda>l k. removeItem k l) ls
                  (filter (\<lambda>key. key \<noteq> [] \<and> startsWith key pfx) (storage_keys ls))))"

subsection \<open>UnifiedCache, the facade\<close>

record CacheConfig =
  enableMemory :: bool
  enableLocalStorage :: bool
  defaultTTL :: rat
  maxMemoryEntries :: int
  localStoragePrefix :: string

text \<open>
  The facade owns its memory tier; its durable tier is the host's \<open>localStorage\<close> seen through
  the prefix of the configuration, kept here in the same record.
\<close>

record 'v UnifiedCache =
  config :: CacheConfig
  memoryCache :: "'v MemoryCache"
  localStorage :: "'v Storage option"

definition UnifiedCache_new :: "CacheConfig \<Rightarrow> 'v Storage option \<Rightarrow> 'v UnifiedCache" where
  "UnifiedCache_new cfg lso =
     \<lparr>config = cfg, memoryCache = MemoryCache_new (maxMemoryEntries cfg), localStorage = lso\<rparr>"

definition UnifiedCache_get :: "int \<Rightarrow> string \<Rightarrow> 'v UnifiedCache \<Rightarrow> 'v option \<times> 'v UnifiedCache" where
  "UnifiedCache_get now key c =
     (let (r1, c1) =
            (if enableMemory (config c)
             then (let (d, m) = MemoryCache_get now key (memoryCache c)
                   in (d, c\<lparr>memoryCache := m\<rparr>))
             else (None, c))
      in case r1 of
           Some d \<Rightarrow> (Some d, c1)
         | None \<Rightarrow>
             if enableLocalStorage (config c1)
             then (let (r2, ls) = LocalStorageCache_get (localStoragePrefix (config c1)) now key
                                    (localStorage c1);
                       c2 = c1\<lparr>localStorage := ls\<rparr>
                   in case r2 of
                        Some d \<Rightarrow>
                          (Some d,
                           if enableMemory (config c2)
                           then c2\<lparr>memoryCache :=
                                     MemoryCache_set now key d (defaultTTL (config c2)) (memoryCache c2)\<rparr>
                           else c2)
                      | None \<Rightarrow> (None, c2))
             else (None, c1))"

definition UnifiedCache_set :: "int \<Rightarrow> string \<Rightarrow> 'v \<Rightarrow> rat \<Rightarrow> 'v UnifiedCache \<Rightarrow> 'v UnifiedCache" where
  "UnifiedCache_set now key d ttlSeconds c =
     (let c1 = (if enableMemory (config c)
                then c\<lparr>memoryCache := MemoryCache_set now key d ttlSeconds (memoryCache c)\<rparr>
                else c)
      in if enableLocalStorage (config c1)
         then c1\<lparr>localStorage :=
                   snd (LocalStorageCache_set (localStoragePrefix (config c1)) now key d ttlSeconds
                          (localStorage c1))\<rparr>
         else c1)"

definition UnifiedCache_delete :: "string \<Rightarrow> 'v UnifiedCache \<Rightarrow> 'v UnifiedCache" where
  "UnifiedCache_delete key c =
     c\<lparr>memoryCache := MemoryCache_delete key (memoryCache c),
       localStorage := LocalStorageCache_delete (localStoragePrefix (config c)) key (localStorage c)\<rparr>"

definition UnifiedCache_clear :: "'v UnifiedCache \<Rightarrow> 'v UnifiedCache" where
  "UnifiedCache_clear c =
     c\<lparr>memoryCache := MemoryCache_clear (memoryCache c),
       localStorage := LocalStorageCache_clear (localStoragePrefix (config c)) (localStorage c)\<rparr>"

text \<open>The configuration of the exported instance \<open>globalCache\<close>.\<close>

definition globalCache_config :: CacheConfig where
  "globalCache_config =
     \<lparr>enableMemory = True, enableLocalStorage = True, defaultTTL = 3600,
      maxMemoryEntries = 100, localStoragePrefix = ''deco-cache:''\<rparr>"

section \<open>The key builder (\<open>generateCacheKey\<close>)\<close>

text \<open>
  A parameter value is a string, a number, a boolean or \<open>undefined\<close>. Numbers are taken to
  be integers, printed in decimal as template literals print them. The parameter
  object is given as the list \<open>Object.entries\<close> returns: its own keys, each once, in property order.
\<close>

datatype scalar = Undefined | Str string | Num int | Bool bool

fun string_of_nat :: "nat \<Rightarrow> string" where
  "string_of_nat n =
     (if n < 10 then [char_of (48 + n)]
      else string_of_nat (n div 10) @ [char_of (48 + n mod 10)])"

declare string_of_nat.simps [simp del]

definition string_of_int :: "int \<Rightarrow> string" where
  "string_of_int i = (if i < 0 then ''-'' @ string_of_nat (nat (- i)) else string_of_nat (nat i))"

text \<open>The conversion a template literal applies to \<open>${value}\<close>.\<close>

fun toString :: "scalar \<Rightarrow> string" where
  "toString Undefined = ''undefined''"
| "toString (Str s) = s"
| "toString (Num n) = string_of_int n"
| "toString (Bool b) = (if b then ''true'' else ''false'')"

text \<open>\<open>value !== undefined && value !== ''\<close>\<close>

definition keep :: "string \<times> scalar \<Rightarrow> bool" where
  "keep kv = (snd kv \<noteq> Undefined \<and> snd kv \<noteq> Str [])"

text \<open>
  \<open>Array.prototype.sort\<close> with the comparator \<open>([a], [b]) => a.localeCompare(b)\<close>. The sort
  of the language is stable and, for a consistent comparator, returns the sorted
  arrangement; a stable insertion sort computes that arrangement. The comparator of the
  host, \<open>localeCompare\<close>, is the argument \<open>cmp\<close>: negative, zero or positive.
\<close>

fun insert_by :: "(string \<Rightarrow> string \<Rightarrow> int) \<Rightarrow> string \<times> 'a \<Rightarrow> (string \<times> 'a) list \<Rightarrow> (string \<times> 'a) list" where
  "insert_by cmp x [] = [x]"
| "insert_by cmp x (y # ys) =
     (if cmp (fst x) (fst y) > 0 then y # insert_by cmp x ys else x # y # ys)"

definition Array_sort :: "(string \<Rightarrow> string \<Rightarrow> int) \<Rightarrow> (string \<times> 'a) list \<Rightarrow> (string \<times> 'a) list" where
  "Array_sort cmp xs = foldr (insert_by cmp) xs []"

fun Array_join :: "string \<Rightarrow> string list \<Rightarrow> string" where
  "Array_join sep [] = []"
| "Array_join sep [x] = x"
| "Array_join sep (x # y # ys) = x @ sep @ Array_join sep (y # ys)"

definition key_value :: "string \<times> scalar \<Rightarrow> string" where
  "key_value kv = fst kv @ ''='' @ toString (snd kv)"

definition generateCacheKey ::
  "(string \<Rightarrow> string \<Rightarrow> int) \<Rightarrow> string \<Rightarrow> (string \<times> scalar) list \<Rightarrow> string" where
  "generateCacheKey localeCompare pfx params =
     (let filteredParams =
            Array_join ''&'' (map key_value (Array_sort localeCompare (filter keep params)))
      in pfx @ ''-'' @ filteredParams)"

text \<open>
  The reference definition in the words of the specification: drop the entries whose value
  is \<open>undefined\<close> or the empty string, sort the remaining keys ascending by byte value, join
  them as \<open>key=value\<close> with \<open>&\<close>, and prefix with \<open>prefix-\<close>. The order on strings is the
  lexicographic order of their bytes.
\<close>

definition buildKey_spec :: "string \<Rightarrow> (string \<times> scalar) list \<Rightarrow> string" where
  "buildKey_spec pfx params =
     pfx @ ''-'' @ Array_join ''&'' (map key_value (sort_key fst (filter keep params)))"

text \<open>
  Two comparators. \<open>byte_compare\<close> orders strings by byte value. \<open>localeCompare_letters\<close>
  is how the host's collation orders strings of ASCII letters: alphabetically without
  regard to case, and, between strings that differ in case only, lower case first at the
  first difference.
\<close>

definition byte_compare :: "string \<Rightarrow> string \<Rightarrow> int" where
  "byte_compare a b = (if a < b then - 1 else if b < a then 1 else 0)"

definition toLowerCase :: "string \<Rightarrow> string" where
  "toLowerCase s =
     map (\<lambda>c. if CHR ''A'' \<le> c \<and> c \<le> CHR ''Z'' then char_of (of_char c + (32::nat)) else c) s"

fun case_compare :: "string \<Rightarrow> string \<Rightarrow> int" where
  "case_compare [] [] = 0"
| "case_compare [] (y # ys) = - 1"
| "case_compare (x # xs) [] = 1"
| "case_compare (x # xs) (y # ys) =
     (if x = y then case_compare xs ys
      else if CHR ''a'' \<le> x \<and> x \<le> CHR ''z'' then - 1 else 1)"

definition localeCompare_letters :: "string \<Rightarrow> string \<Rightarrow> int" where
  "localeCompare_letters a b =
     (if toLowerCase a < toLowerCase b then - 1
      else if toLowerCase b < toLowerCase a then 1
      else case_compare a b)"

text \<open>
  The collation of the host gives the control characters below the tab no weight: a
  string compares as the string without them. \<open>localeCompare_ignorable\<close> is that comparison
  on strings of ASCII letters and such control characters. It is a consistent comparator
  (a total preorder), and it ties two different strings that differ in control
  characters only, such as \<open>a\<close> and \<open>a\<close> followed by the character with code 1.
\<close>

definition ignorable :: "char \<Rightarrow> bool" where
  "ignorable c = ((of_char c :: nat) < 9)"

definition localeCompare_ignorable :: "string \<Rightarrow> string \<Rightarrow> int" where
  "localeCompare_ignorable a b =
     localeCompare_letters (filter (\<lambda>c. \<not> ignorable c) a) (filter (\<lambda>c. \<not> ignorable c) b)"

text \<open>
  Two parameter maps with the same two entries, inserted in opposite orders; the second key
  is \<open>a\<close> followed by the character with code 1.
\<close>

definition tied_params_1 :: "(string \<times> scalar) list" where
  "tied_params_1 = [(''a'', Num 1), ([CHR ''a'', CHR 0x01], Num 2)]"

definition tied_params_2 :: "(string \<times> scalar) list" where
  "tied_params_2 = [([CHR ''a'', CHR 0x01], Num 2), (''a'', Num 1)]"

section \<open>The fetch coordinator (\<open>useCachedData\<close>)\<close>

text \<open>
  The options of one render of the hook. \<open>fetchFn\<close> is not a field: the producer's result
  arrives later, as an event. \<open>dependencies\<close> has any type \<open>'d\<close>; \<open>JSON.stringify\<close> on it
  is the argument \<open>stringify\<close> of the functions below.
\<close>

record 'd UseCachedDataOptions =
  cacheKey :: string
  dependencies :: 'd
  opt_ttl :: rat
  debounceMs :: int
  clearOnChange :: bool
  enableCache :: bool
  fetchOnMount :: bool

text \<open>
  What a producer rejects with: an instance of \<open>Error\<close>, with its message, or a value of
  any other kind (a rejected string, say), given by its text.
\<close>

datatype thrown = ErrorObject string | OtherValue string

text \<open>
  A call of \<open>fetchData\<close> suspended at \<open>await fetchFn()\<close>: its local constants
  \<open>currentRequestId\<close> and \<open>currentParams\<close>, and the options its closure captured.
\<close>

record 'd request =
  currentRequestId :: nat
  currentParams :: string
  closure :: "'d UseCachedDataOptions"

text \<open>
  The state of one mounted hook: the four \<open>useState\<close> cells, the four refs, the shared
  cache, the suspended calls of \<open>fetchData\<close>, and the options of the latest render.
  \<open>debounceTimerRef\<close> is \<open>Some opts\<close> while a timer is pending, \<open>opts\<close> being the render
  whose \<open>fetchData\<close> the timer will call.
\<close>

record ('v, 'd) hook =
  st_data :: "'v option"
  st_loading :: bool
  st_error :: "string option"
  st_fromCache :: bool
  debounceTimerRef :: "'d UseCachedDataOptions option"
  currentParamsRef :: string
  requestIdRef :: nat
  isMountedRef :: bool
  globalCache :: "'v UnifiedCache"
  awaiting :: "'d request list"
  rendered :: "'d UseCachedDataOptions"

text \<open>The message shown for a rejection that is not an \<open>Error\<close>: four CJK characters, in UTF-8.\<close>

definition unknown_error :: string where
  "unknown_error =
     [CHR 0xE6, CHR 0x9C, CHR 0xAA, CHR 0xE7, CHR 0x9F, CHR 0xA5,
      CHR 0xE9, CHR 0x94, CHR 0x99, CHR 0xE8, CHR 0xAF, CHR 0xAF]"

text \<open>\<open>setLoading(true)\<close>, then \<open>await fetchFn()\<close>: the call is suspended.\<close>

definition invoke_fetchFn :: "'d request \<Rightarrow> ('v, 'd) hook \<Rightarrow> ('v, 'd) hook" where
  "invoke_fetchFn r h = h\<lparr>st_loading := True, awaiting := awaiting h @ [r]\<rparr>"

text \<open>\<open>fetchData(ignoreCache)\<close> up to its \<open>await\<close>.\<close>

definition fetchData ::
  "('d \<Rightarrow> string) \<Rightarrow> int \<Rightarrow> 'd UseCachedDataOptions \<Rightarrow> bool \<Rightarrow> ('v, 'd) hook \<Rightarrow> ('v, 'd) hook" where
  "fetchData stringify now opts ignoreCache h =
     (let r = \<lparr>currentRequestId = requestIdRef h + 1,
               currentParams = stringify (dependencies opts),
               closure = opts\<rparr>;
          h1 = h\<lparr>requestIdRef := currentRequestId r, currentParamsRef := currentParams r\<rparr>
      in if enableCache opts \<and> \<not> ignoreCache
         then (let (cached, c) = UnifiedCache_get now (cacheKey opts) (globalCache h1);
                   h2 = h1\<lparr>globalCache := c\<rparr>
               in case cached of
                    Some v \<Rightarrow>
                      if currentParamsRef h2 = currentParams r \<and> isMountedRef h2
                      then h2\<lparr>st_data := Some v, st_fromCache := True,
                              st_loading := False, st_error := None\<rparr>
                      else invoke_fetchFn r h2
                  | None \<Rightarrow> invoke_fetchFn r h2)
         else invoke_fetchFn r h1)"

text \<open>The rest of the \<open>try\<close> block, run when the producer resolves with \<open>result\<close>.\<close>

definition fetchData_resolved :: "int \<Rightarrow> 'd request \<Rightarrow> 'v \<Rightarrow> ('v, 'd) hook \<Rightarrow> ('v, 'd) hook" where
  "fetchData_resolved now r result h =
     (if currentRequestId r \<noteq> requestIdRef h then h
      else if currentParamsRef h \<noteq> currentParams r then h
      else if \<not> isMountedRef h then h
      else (let h1 = h\<lparr>st_data := Some result, st_fromCache := False,
                       st_loading := False, st_error := None\<rparr>
            in if enableCache (closure r)
               then h1\<lparr>globalCache :=
                         UnifiedCache_set now (cacheKey (closure r)) result (opt_ttl (closure r))
                           (globalCache h1)\<rparr>
               else h1))"

text \<open>The \<open>catch\<close> block, run when the producer rejects with \<open>e\<close>.\<close>

definition fetchData_rejected :: "'d request \<Rightarrow> thrown \<Rightarrow> ('v, 'd) hook \<Rightarrow> ('v, 'd) hook" where
  "fetchData_rejected r e h =
     (if currentRequestId r \<noteq> requestIdRef h \<or> \<not> isMountedRef h then h
      else (let errorMessage = (case e of ErrorObject message \<Rightarrow> message
                                        | OtherValue _ \<Rightarrow> unknown_error)
            in h\<lparr>st_error := Some errorMessage, st_loading := False\<rparr>))"

text \<open>
  The body of the debounce effect: clear the timer; without \<open>fetchOnMount\<close> and before any
  request, only \<open>setLoading(false)\<close>; otherwise start a timer that will call \<open>fetchData()\<close>.
\<close>

definition debounce_effect :: "'d UseCachedDataOptions \<Rightarrow> ('v, 'd) hook \<Rightarrow> ('v, 'd) hook" where
  "debounce_effect opts h =
     (let h1 = h\<lparr>debounceTimerRef := None\<rparr>
      in if \<not> fetchOnMount opts \<and> requestIdRef h1 = 0 then h1\<lparr>st_loading := False\<rparr>
         else h1\<lparr>debounceTimerRef := Some opts\<rparr>)"

text \<open>The first render and its effects.\<close>

definition mount ::
  "('d \<Rightarrow> string) \<Rightarrow> 'd UseCachedDataOptions \<Rightarrow> 'v UnifiedCache \<Rightarrow> ('v, 'd) hook" where
  "mount stringify opts cache =
     debounce_effect opts
       \<lparr>st_data = None, st_loading = True, st_error = None, st_fromCache = False,
        debounceTimerRef = None, currentParamsRef = stringify (dependencies opts),
        requestIdRef = 0, isMountedRef = True, globalCache = cache, awaiting = [],
        rendered = opts\<rparr>"

text \<open>
  What can happen to a mounted hook.
  \<^item> \<open>Render opts\<close>: a render with new options; the debounce effect runs again (cleanup,
    then body) when \<open>cacheKey\<close> or a dependency differs from the previous render.
  \<^item> \<open>TimerFires\<close>: the pending timer calls \<open>fetchData()\<close>.
  \<^item> \<open>Resolves r v\<close>, \<open>Rejects r e\<close>: the producer of the suspended call \<open>r\<close> settles.
  \<^item> \<open>Refresh\<close>: \<open>refresh()\<close>, that is \<open>fetchData(true)\<close> of the latest render.
  \<^item> \<open>ClearCache\<close>: \<open>clearCache()\<close>.
  \<^item> \<open>Unmount\<close>: the cleanups of both effects.
\<close>

datatype ('v, 'd) event =
    Render "'d UseCachedDataOptions"
  | TimerFires
  | Resolves "'d request" 'v
  | Rejects "'d request" thrown
  | Refresh
  | ClearCache
  | Unmount

fun step :: "('d \<Rightarrow> string) \<Rightarrow> int \<Rightarrow> ('v, 'd) event \<Rightarrow> ('v, 'd) hook \<Rightarrow> ('v, 'd) hook" where
  "step stringify now (Render opts) h =
     (if \<not> isMountedRef h then h
      else if cacheKey opts \<noteq> cacheKey (rendered h) \<or> dependencies opts \<noteq> dependencies (rendered h)
      then debounce_effect opts (h\<lparr>rendered := opts, debounceTimerRef := None\<rparr>)
      else h\<lparr>rendered := opts\<rparr>)"
| "step stringify now TimerFires h =
     (case debounceTimerRef h of
        None \<Rightarrow> h
      | Some opts \<Rightarrow> fetchData stringify now opts False (h\<lparr>debounceTimerRef := None\<rparr>))"
| "step stringify now (Resolves r v) h =
     (if r \<in> set (awaiting h)
      then fetchData_resolved now r v (h\<lparr>awaiting := remove1 r (awaiting h)\<rparr>)
      else h)"
| "step stringify now (Rejects r e) h =
     (if r \<in> set (awaiting h)
      then fetchData_rejected r e (h\<lparr>awaiting := remove1 r (awaiting h)\<rparr>)
      else h)"
| "step stringify now Refresh h = fetchData stringify now (rendered h) True h"
| "step stringify now ClearCache h =
     h\<lparr>globalCache := UnifiedCache_delete (cacheKey (rendered h)) (globalCache h)\<rparr>"
| "step stringify now Unmount h = h\<lparr>isMountedRef := False, debounceTimerRef := None\<rparr>"


text \<open>The states a hook can be in: after mounting, and after any event.\<close>

inductive reachable :: "('d \<Rightarrow> string) \<Rightarrow> ('v, 'd) hook \<Rightarrow> bool" for stringify where
  reachable_mount: "reachable stringify (mount stringify opts cache)"
| reachable_step: "reachable stringify h \<Longrightarrow> reachable stringify (step stringify now ev h)"

section \<open>Auxiliary notions and sample states\<close>

text \<open>
  What a recovery sweep of the namespace \<open>pfx\<close> removes at time \<open>now\<close>: a non-empty key of the
  namespace whose item does not parse or holds an entry with expired time-to-live.
\<close>

definition sweepable :: "string \<Rightarrow> int \<Rightarrow> 'v Storage \<Rightarrow> string \<Rightarrow> bool" where
  "sweepable pfx now ls k =
     (k \<noteq> [] \<and> startsWith k pfx \<and>
      (case getItem k ls of
         Some Corrupt \<Rightarrow> True
       | Some (Entry e) \<Rightarrow> expired now e
       | _ \<Rightarrow> False))"




text \<open>
  A facade configured like \<open>globalCache\<close>, with an empty memory tier and one durable entry
  written with a time-to-live of 7200 seconds (the default of \<open>useCachedData\<close>).
\<close>

definition sample_cache :: "nat UnifiedCache" where
  "sample_cache =
     \<lparr>config = globalCache_config, memoryCache = MemoryCache_new 100,
      localStorage =
        Some \<lparr>items = [(''deco-cache:k'', Entry \<lparr>data = 7, timestamp = 0, ttl = 7200\<rparr>)],
              fits = (\<lambda>_. True), calls = []\<rparr>\<rparr>"

text \<open>
  A storage that holds at most three items: an expired entry and a live entry of the
  namespace \<open>deco-cache:\<close>, and an item of another writer.
\<close>

definition full_storage :: "nat Storage" where
  "full_storage =
     \<lparr>items = [(''deco-cache:old'', Entry \<lparr>data = 1, timestamp = 0, ttl = 1\<rparr>),
               (''other'', Corrupt),
               (''deco-cache:live'', Entry \<lparr>data = 2, timestamp = 0, ttl = 60\<rparr>)],
      fits = (\<lambda>xs. length xs \<le> 3), calls = []\<rparr>"

text \<open>
  What the sort needs of the comparator on a set of keys \<open>K\<close>: of two keys one is not
  after the other, "not after" is transitive, and two different keys are never tied.
\<close>

definition orders_keys :: "(string \<Rightarrow> string \<Rightarrow> int) \<Rightarrow> string set \<Rightarrow> bool" where
  "orders_keys cmp K =
     ((\<forall>a\<in>K. \<forall>b\<in>K. 0 < cmp a b \<longrightarrow> cmp b a \<le> 0) \<and>
      (\<forall>a\<in>K. \<forall>b\<in>K. \<forall>c\<in>K. cmp a b \<le> 0 \<and> cmp b c \<le> 0 \<longrightarrow> cmp a c \<le> 0) \<and>
      (\<forall>a\<in>K. \<forall>b\<in>K. cmp a b \<le> 0 \<and> cmp b a \<le> 0 \<longrightarrow> a = b))"

text \<open>The suspended call that \<open>fetchData\<close>, started in state \<open>h\<close> with the options \<open>opts\<close>, leaves behind.\<close>

definition new_request :: "('d \<Rightarrow> string) \<Rightarrow> 'd UseCachedDataOptions \<Rightarrow> ('v, 'd) hook \<Rightarrow> 'd request" where
  "new_request stringify opts h =
     \<lparr>currentRequestId = requestIdRef h + 1, currentParams = stringify (dependencies opts), closure = opts\<rparr>"

text \<open>
  An invariant of the hook: the suspended calls carry positive request ids not above the
  counter, the one that carries the current id carries the current snapshot, and a timer
  is pending only while the hook is mounted.
\<close>

definition hook_inv :: "('v, 'd) hook \<Rightarrow> bool" where
  "hook_inv h =
     ((\<forall>r\<in>set (awaiting h). 0 < currentRequestId r \<and> currentRequestId r \<le> requestIdRef h) \<and>
      (\<forall>r\<in>set (awaiting h). currentRequestId r = requestIdRef h \<longrightarrow> currentParams r = currentParamsRef h) \<and>
      (debounceTimerRef h \<noteq> None \<longrightarrow> isMountedRef h))"

text \<open>
  A sample run. The dependency is one string, serialised as itself. The hook mounts with
  the options \<open>optsA\<close> on an empty cache; the timer fires and the producer for \<open>movie\<close> is
  called (\<open>request_A\<close>); the dependency changes to \<open>tv\<close>; the timer fires and the producer
  for \<open>tv\<close> is called (\<open>request_B\<close>); the producer for \<open>tv\<close> resolves with 2; the producer
  for \<open>movie\<close> resolves with 1. \<open>sample_refresh\<close> is a hook mounted on \<open>sample_cache\<close> after
  a call of \<open>refresh()\<close>.
\<close>

definition sample_stringify :: "string \<Rightarrow> string" where
  "sample_stringify d = d"

definition optsA :: "string UseCachedDataOptions" where
  "optsA = \<lparr>cacheKey = ''douban-movie'', dependencies = ''movie'', opt_ttl = 7200, debounceMs = 100,
            clearOnChange = True, enableCache = True, fetchOnMount = True\<rparr>"

definition optsB :: "string UseCachedDataOptions" where
  "optsB = \<lparr>cacheKey = ''douban-tv'', dependencies = ''tv'', opt_ttl = 7200, debounceMs = 100,
            clearOnChange = True, enableCache = True, fetchOnMount = True\<rparr>"

definition opts_k :: "string UseCachedDataOptions" where
  "opts_k = \<lparr>cacheKey = ''k'', dependencies = ''k'', opt_ttl = 7200, debounceMs = 100,
            clearOnChange = True, enableCache = True, fetchOnMount = True\<rparr>"

definition request_A :: "string request" where
  "request_A = \<lparr>currentRequestId = 1, currentParams = ''movie'', closure = optsA\<rparr>"

definition request_B :: "string request" where
  "request_B = \<lparr>currentRequestId = 2, currentParams = ''tv'', closure = optsB\<rparr>"

definition request_k :: "string request" where
  "request_k = \<lparr>currentRequestId = 1, currentParams = ''k'', closure = opts_k\<rparr>"

definition empty_cache :: "nat UnifiedCache" where
  "empty_cache = UnifiedCache_new globalCache_config (Some \<lparr>items = [], fits = (\<lambda>_. True), calls = []\<rparr>)"

definition sample_h0 :: "(nat, string) hook" where
  "sample_h0 = mount sample_stringify optsA empty_cache"

definition sample_h1 :: "(nat, string) hook" where
  "sample_h1 = step sample_stringify 100 TimerFires sample_h0"

definition sample_h2 :: "(nat, string) hook" where
  "sample_h2 = step sample_stringify 150 (Render optsB) sample_h1"

definition sample_h3 :: "(nat, string) hook" where
  "sample_h3 = step sample_stringify 250 TimerFires sample_h2"

definition sample_h4 :: "(nat, string) hook" where
  "sample_h4 = step sample_stringify 300 (Resolves request_B 2) sample_h3"

definition sample_h5 :: "(nat, string) hook" where
  "sample_h5 = step sample_stringify 750 (Resolves request_A 1) sample_h4"

definition sample_refresh :: "(nat, string) hook" where
  "sample_refresh = step sample_stringify 1000 Refresh (mount sample_stringify opts_k sample_cache)"

section \<open>Properties of the cache tiers\<close>

subsection \<open>The ordered map\<close>

lemma Map_get_Map_set_same: "Map_get (Map_set k v m) k = Some v"
  by (induction m) (auto simp: Map_get_def)

subsection \<open>The memory tier\<close>

lemma MemoryCache_set_stores:
  "Map_get (store (MemoryCache_set now key d t c)) key = Some \<lparr>data = d, timestamp = now, ttl = t\<rparr>"
  by (simp add: MemoryCache_set_def Let_def Map_get_Map_set_same)

text \<open>
  Claim C4. The memory tier is documented as an LRU cache, and \<open>get\<close> moves the key it
  reads to the end of the map. \<open>set\<close> does not follow the discipline on a key that is
  already present: at capacity it still evicts the oldest entry, and below capacity it
  leaves the key at its old position. With capacity 2, after \<open>set a\<close>, \<open>set b\<close>, a second
  \<open>set b\<close> evicts \<open>a\<close> and leaves one entry. With capacity 3, after \<open>set a\<close>, \<open>set b\<close>,
  \<open>set a\<close>, \<open>set c\<close>, the call \<open>set d\<close> evicts \<open>a\<close>, which was touched after \<open>b\<close>.
\<close>

theorem MemoryCache_set_present_key_not_LRU:
  "map fst (store (MemoryCache_set 3 ''b'' (2::nat) 60
      (MemoryCache_set 2 ''b'' 1 60
        (MemoryCache_set 1 ''a'' 0 60 (MemoryCache_new 2))))) = [''b'']
   \<and> map fst (store (MemoryCache_set 5 ''d'' (4::nat) 60
      (MemoryCache_set 4 ''c'' 3 60
        (MemoryCache_set 3 ''a'' 2 60
          (MemoryCache_set 2 ''b'' 1 60
            (MemoryCache_set 1 ''a'' 0 60 (MemoryCache_new 3))))))) = [''b'', ''c'', ''d'']"
  by (simp add: MemoryCache_set_def MemoryCache_new_def Map_first_key_def Map_delete_def)

subsection \<open>The facade\<close>




text \<open>
  Claim C3, as the code has it. When the memory tier is enabled and misses, and the durable
  tier is enabled and hits with the value \<open>d\<close>, \<open>UnifiedCache.get\<close> returns \<open>d\<close> and has
  written \<open>d\<close> into the memory tier as a fresh entry: stamped with the current time and
  with the facade's configured \<open>defaultTTL\<close>, whatever time-to-live the durable entry was
  stored with.
\<close>

theorem UnifiedCache_get_backfill_defaultTTL:
  assumes "enableMemory (config c)" and "enableLocalStorage (config c)"
    and "fst (MemoryCache_get now key (memoryCache c)) = None"
    and "fst (LocalStorageCache_get (localStoragePrefix (config c)) now key (localStorage c)) = Some d"
  shows "fst (UnifiedCache_get now key c) = Some d \<and>
         Map_get (store (memoryCache (snd (UnifiedCache_get now key c)))) key
           = Some \<lparr>data = d, timestamp = now, ttl = defaultTTL (config c)\<rparr>"
proof -
  obtain m where m: "MemoryCache_get now key (memoryCache c) = (None, m)"
    using assms(3) by (cases "MemoryCache_get now key (memoryCache c)") auto
  obtain ls where ls:
    "LocalStorageCache_get (localStoragePrefix (config c)) now key (localStorage c) = (Some d, ls)"
    using assms(4)
    by (cases "LocalStorageCache_get (localStoragePrefix (config c)) now key (localStorage c)") auto
  have "UnifiedCache_get now key c =
          (Some d, c\<lparr>memoryCache := MemoryCache_set now key d (defaultTTL (config c)) m,
                     localStorage := ls\<rparr>)"
    using assms(1,2) m ls by (simp add: UnifiedCache_get_def)
  then show ?thesis by (simp add: MemoryCache_set_stores)
qed

theorem UnifiedCache_get_backfill_defaultTTL_witness:
  "fst (UnifiedCache_get 1000 ''k'' sample_cache) = Some 7 \<and>
   Map_get (store (memoryCache (snd (UnifiedCache_get 1000 ''k'' sample_cache)))) ''k''
     = Some \<lparr>data = 7, timestamp = 1000, ttl = defaultTTL (config sample_cache)\<rparr>"
  using UnifiedCache_get_backfill_defaultTTL [of sample_cache 1000 "''k''" 7]
  by (simp add: sample_cache_def globalCache_config_def MemoryCache_new_def MemoryCache_get_def
      Map_get_def LocalStorageCache_get_def getItem_def getFullKey_def expired_def elapsed_def)

text \<open>
  Claim C3 as stated fails: in \<open>sample_cache\<close> the memory tier misses on \<open>k\<close>, the durable
  tier holds \<open>k\<close> with a time-to-live of 7200 seconds and hits, and the entry written back
  into the memory tier has a time-to-live of 3600 seconds.
\<close>

theorem UnifiedCache_get_backfill_ttl_counterexample:
  "fst (MemoryCache_get 1000 ''k'' (memoryCache sample_cache)) = None \<and>
   getItem (getFullKey (localStoragePrefix (config sample_cache)) ''k'') (the (localStorage sample_cache))
     = Some (Entry \<lparr>data = 7, timestamp = 0, ttl = 7200\<rparr>) \<and>
   fst (LocalStorageCache_get (localStoragePrefix (config sample_cache)) 1000 ''k''
          (localStorage sample_cache)) = Some 7 \<and>
   Map_get (store (memoryCache (snd (UnifiedCache_get 1000 ''k'' sample_cache)))) ''k''
     = Some \<lparr>data = 7, timestamp = 1000, ttl = 3600\<rparr>"
  by (simp add: sample_cache_def globalCache_config_def MemoryCache_new_def MemoryCache_get_def
      Map_get_def LocalStorageCache_get_def getItem_def getFullKey_def expired_def elapsed_def
      UnifiedCache_get_def MemoryCache_set_def Map_first_key_def)

subsection \<open>The durable tier\<close>

lemma foldl_removeItem:
  "foldl (\<lambda>l k. removeItem k l) ls ks =
     ls\<lparr>items := filter (\<lambda>kv. fst kv \<notin> set ks) (items ls), calls := calls ls @ map RemoveItem ks\<rparr>"
proof (induction ks arbitrary: ls)
  case Nil
  then show ?case by simp
next
  case (Cons k ks)
  have *: "filter (\<lambda>kv. fst kv \<notin> set ks) (Map_delete k (items ls))
             = filter (\<lambda>kv. fst kv \<notin> set (k # ks)) (items ls)"
    by (auto simp: Map_delete_def intro: filter_cong)
  have "foldl (\<lambda>l k. removeItem k l) ls (k # ks) = foldl (\<lambda>l k. removeItem k l) (removeItem k ls) ks"
    by simp
  also have "\<dots> = (removeItem k ls)\<lparr>items := filter (\<lambda>kv. fst kv \<notin> set ks) (items (removeItem k ls)),
                 calls := calls (removeItem k ls) @ map RemoveItem ks\<rparr>"
    by (rule Cons.IH)
  also have "\<dots> = ls\<lparr>items := filter (\<lambda>kv. fst kv \<notin> set (k # ks)) (items ls),
                       calls := calls ls @ map RemoveItem (k # ks)\<rparr>"
    using * by (simp add: removeItem_def)
  finally show ?case .
qed

lemma keysToDelete_filter: "keysToDelete pfx now ls ks = filter (sweepable pfx now ls) ks"
proof (induction ks)
  case Nil
  show ?case by simp
next
  case (Cons k ks)
  show ?case
  proof (cases "getItem k ls")
    case None
    then show ?thesis using Cons by (simp add: sweepable_def)
  next
    case (Some it)
    then show ?thesis using Cons by (cases it) (simp_all add: sweepable_def)
  qed
qed

lemma cleanExpired_Some:
  "cleanExpired pfx now (Some ls) =
     (length (keysToDelete pfx now ls (storage_keys ls)),
      Some (ls\<lparr>items := filter (\<lambda>kv. fst kv \<notin> set (keysToDelete pfx now ls (storage_keys ls))) (items ls),
               calls := calls ls @ map RemoveItem (keysToDelete pfx now ls (storage_keys ls))\<rparr>))"
  by (simp add: cleanExpired_def Let_def foldl_removeItem)

lemma getItem_calls: "getItem k (ls\<lparr>calls := cs\<rparr>) = getItem k ls"
  by (simp add: getItem_def)

lemma sweepable_calls: "sweepable pfx now (ls\<lparr>calls := cs\<rparr>) = sweepable pfx now ls"
  by (rule ext) (simp add: sweepable_def getItem_calls)

lemma LocalStorageCache_set_never_throws:
  "fst (LocalStorageCache_set pfx now key d t lso) = Inr ()"
  by (simp add: LocalStorageCache_set_def Let_def split: option.splits prod.splits sum.splits)

text \<open>
  Claim C7. When the first \<open>setItem\<close> of \<open>LocalStorageCache.set\<close> throws, the method returns
  normally, and the storage it leaves is the one obtained by removing every sweepable key
  (the keys of the namespace whose entry is expired or does not parse), each once, and then
  attempting the same write once more: the entry is stored if the host accepts it after
  the sweep and is dropped otherwise. The calls made on the host are, in order, the failed
  write, one removal per swept key and a single second write. Whatever the storage, the
  method never lets an exception out.
\<close>

theorem LocalStorageCache_set_recovery:
  assumes "fst (setItem (getFullKey pfx key) (Entry \<lparr>data = d, timestamp = now, ttl = t\<rparr>) ls) = Inl err"
  shows "LocalStorageCache_set pfx now key d t (Some ls) =
     (let fullKey = getFullKey pfx key;
          entry = Entry \<lparr>data = d, timestamp = now, ttl = t\<rparr>;
          ks = filter (sweepable pfx now ls) (storage_keys ls);
          swept = filter (\<lambda>kv. fst kv \<notin> set ks) (items ls)
      in (Inr (),
          Some (ls\<lparr>items := (if fits ls (Map_set fullKey entry swept)
                              then Map_set fullKey entry swept else swept),
                   calls := calls ls @ [SetItem fullKey] @ map RemoveItem ks @ [SetItem fullKey]\<rparr>)))
     \<and> fst (LocalStorageCache_set pfx now key d t lso) = Inr ()"
proof -
  define fk where "fk = getFullKey pfx key"
  define E where "E = Entry \<lparr>data = d, timestamp = now, ttl = t\<rparr>"
  define ks where "ks = filter (sweepable pfx now ls) (storage_keys ls)"
  define swept where "swept = filter (\<lambda>kv. fst kv \<notin> set ks) (items ls)"
  define ls1 where "ls1 = ls\<lparr>calls := calls ls @ [SetItem fk]\<rparr>"
  define ls2 where "ls2 = ls\<lparr>items := swept, calls := calls ls @ [SetItem fk] @ map RemoveItem ks\<rparr>"
  have nofit: "\<not> fits ls (Map_set fk E (items ls))"
    using assms by (auto simp: setItem_def Let_def fk_def E_def split: if_splits)
  have first: "setItem fk E ls = (Inl QuotaExceededError, ls1)"
    using nofit by (simp add: setItem_def Let_def ls1_def)
  have ks1: "keysToDelete pfx now ls1 (storage_keys ls1) = ks"
    by (simp add: keysToDelete_filter sweepable_calls storage_keys_def ls1_def ks_def)
  have sweep: "snd (cleanExpired pfx now (Some ls1)) = Some ls2"
    unfolding cleanExpired_Some ks1 by (simp add: ls1_def ls2_def swept_def)
  have retry: "snd (setItem fk E ls2) =
      ls\<lparr>items := (if fits ls (Map_set fk E swept) then Map_set fk E swept else swept),
         calls := calls ls @ [SetItem fk] @ map RemoveItem ks @ [SetItem fk]\<rparr>"
    by (simp add: setItem_def Let_def ls2_def)
  have "LocalStorageCache_set pfx now key d t (Some ls) = (Inr (), Some (snd (setItem fk E ls2)))"
    unfolding LocalStorageCache_set_def Let_def fk_def [symmetric] E_def [symmetric]
    by (simp add: first sweep split: prod.splits sum.splits)
  then have "LocalStorageCache_set pfx now key d t (Some ls) =
      (Inr (), Some (ls\<lparr>items := (if fits ls (Map_set fk E swept) then Map_set fk E swept else swept),
         calls := calls ls @ [SetItem fk] @ map RemoveItem ks @ [SetItem fk]\<rparr>))"
    by (simp only: retry)
  then show ?thesis
    by (simp add: Let_def fk_def E_def swept_def ks_def LocalStorageCache_set_never_throws)
qed

theorem LocalStorageCache_set_recovery_witness:
  "LocalStorageCache_set ''deco-cache:'' 2000 ''new'' (3::nat) 60 (Some full_storage) =
     (Inr (),
      Some (full_storage
        \<lparr>items := [(''other'', Corrupt),
                   (''deco-cache:live'', Entry \<lparr>data = 2, timestamp = 0, ttl = 60\<rparr>),
                   (''deco-cache:new'', Entry \<lparr>data = 3, timestamp = 2000, ttl = 60\<rparr>)],
         calls := [SetItem ''deco-cache:new'', RemoveItem ''deco-cache:old'',
                   SetItem ''deco-cache:new'']\<rparr>))
   \<and> fst (LocalStorageCache_set ''deco-cache:'' 2000 ''new'' (3::nat) 60 None) = Inr ()"
  using LocalStorageCache_set_recovery
          [where pfx = "''deco-cache:''" and key = "''new''" and d = 3 and now = 2000 and t = 60
             and ls = full_storage and err = QuotaExceededError and lso = None]
  by (simp add: full_storage_def setItem_def getFullKey_def Let_def sweepable_def storage_keys_def
      getItem_def startsWith_def expired_def elapsed_def)

section \<open>Properties of the key builder\<close>

lemma mset_insert_by: "mset (insert_by cmp x ys) = add_mset x (mset ys)"
  by (induction ys) auto

lemma mset_Array_sort: "mset (Array_sort cmp xs) = mset xs"
  by (induction xs) (auto simp: Array_sort_def mset_insert_by)

lemma set_Array_sort: "set (Array_sort cmp xs) = set xs"
  using mset_Array_sort [of cmp xs] by (metis set_mset_mset)

lemma distinct_keys_Array_sort: "distinct (map fst (Array_sort cmp xs)) = distinct (map fst xs)"
proof -
  have "mset (map fst (Array_sort cmp xs)) = mset (map fst xs)"
    by (simp add: mset_Array_sort)
  then show ?thesis by (rule mset_eq_imp_distinct_iff)
qed

lemma sorted_insert_by:
  assumes "orders_keys cmp K" and "fst x \<in> K" and "fst ` set ys \<subseteq> K"
    and "sorted_wrt (\<lambda>p q. cmp (fst p) (fst q) \<le> 0) ys"
  shows "sorted_wrt (\<lambda>p q. cmp (fst p) (fst q) \<le> 0) (insert_by cmp x ys)"
  using assms(3,4)
proof (induction ys)
  case Nil
  show ?case by simp
next
  case (Cons y ys)
  show ?case
  proof (cases "0 < cmp (fst x) (fst y)")
    case True
    have yx: "cmp (fst y) (fst x) \<le> 0"
      using assms(1,2) Cons.prems(1) True by (auto simp: orders_keys_def)
    have "sorted_wrt (\<lambda>p q. cmp (fst p) (fst q) \<le> 0) (insert_by cmp x ys)"
      using Cons by auto
    moreover have "\<forall>z\<in>set (insert_by cmp x ys). cmp (fst y) (fst z) \<le> 0"
      using yx Cons.prems(2) by (auto simp: set_mset_mset [symmetric] mset_insert_by simp del: set_mset_mset)
    ultimately show ?thesis using True by simp
  next
    case False
    then have xy: "cmp (fst x) (fst y) \<le> 0" by simp
    have "\<forall>z\<in>set ys. cmp (fst x) (fst z) \<le> 0"
    proof
      fix z assume z: "z \<in> set ys"
      then have "cmp (fst y) (fst z) \<le> 0" using Cons.prems(2) by auto
      moreover have "fst y \<in> K" "fst z \<in> K" using Cons.prems(1) z by auto
      ultimately show "cmp (fst x) (fst z) \<le> 0"
        using assms(1,2) xy unfolding orders_keys_def by blast
    qed
    then show ?thesis using False xy Cons.prems(2) by simp
  qed
qed

lemma sorted_Array_sort:
  assumes "orders_keys cmp K" and "fst ` set xs \<subseteq> K"
  shows "sorted_wrt (\<lambda>p q. cmp (fst p) (fst q) \<le> 0) (Array_sort cmp xs)"
  using assms(2)
proof (induction xs)
  case Nil
  show ?case by (simp add: Array_sort_def)
next
  case (Cons x xs)
  have "sorted_wrt (\<lambda>p q. cmp (fst p) (fst q) \<le> 0) (Array_sort cmp xs)"
    using Cons by auto
  moreover have "fst ` set (Array_sort cmp xs) \<subseteq> K"
    using Cons.prems by (simp add: set_Array_sort)
  moreover have "fst x \<in> K" using Cons.prems by simp
  ultimately have "sorted_wrt (\<lambda>p q. cmp (fst p) (fst q) \<le> 0) (insert_by cmp x (Array_sort cmp xs))"
    using sorted_insert_by [OF assms(1)] by blast
  then show ?case by (simp add: Array_sort_def)
qed

lemma sorted_keys_unique:
  assumes "orders_keys cmp K"
  shows "fst ` set xs \<subseteq> K \<Longrightarrow> set xs = set ys \<Longrightarrow> distinct (map fst xs) \<Longrightarrow> distinct (map fst ys) \<Longrightarrow>
     sorted_wrt (\<lambda>p q. cmp (fst p) (fst q) \<le> 0) xs \<Longrightarrow>
     sorted_wrt (\<lambda>p q. cmp (fst p) (fst q) \<le> 0) ys \<Longrightarrow> xs = ys"
proof (induction xs arbitrary: ys)
  case Nil
  then show ?case by simp
next
  case (Cons x xs)
  then obtain y ys' where ys: "ys = y # ys'" by (cases ys) auto
  have xy: "x = y"
  proof (rule ccontr)
    assume ne: "x \<noteq> y"
    have "x \<in> set ys'" using Cons.prems(2) ne ys by auto
    then have 1: "cmp (fst y) (fst x) \<le> 0" using Cons.prems(6) ys by auto
    have yin: "y \<in> set xs" using Cons.prems(2) ne ys by auto
    then have 2: "cmp (fst x) (fst y) \<le> 0" using Cons.prems(5) by auto
    have "fst x \<in> K" "fst y \<in> K" using Cons.prems(1) yin by auto
    then have "fst x = fst y" using assms 1 2 unfolding orders_keys_def by blast
    then show False using Cons.prems(3) yin by (auto simp: image_iff)
  qed
  have dx: "x \<notin> set xs" using Cons.prems(3) by (auto simp: image_iff)
  have dy: "y \<notin> set ys'" using Cons.prems(4) ys by (auto simp: image_iff)
  have "set xs = set ys'" using Cons.prems(2) ys xy dx dy by auto
  then have "xs = ys'"
    using Cons.IH [of ys'] Cons.prems ys by auto
  then show ?case using xy ys by simp
qed

lemma Array_sort_sort_key:
  assumes "\<forall>a\<in>fst ` set xs. \<forall>b\<in>fst ` set xs. (0 < cmp a b) = (b < a)"
  shows "Array_sort cmp xs = sort_key fst xs"
  using assms
proof (induction xs)
  case Nil
  show ?case by (simp add: Array_sort_def)
next
  case (Cons x xs)
  have ih: "Array_sort cmp xs = sort_key fst xs" using Cons by auto
  have "insert_by cmp x ys = insort_key fst x ys" if "fst ` set ys \<subseteq> fst ` set (x # xs)" for ys
    using that
  proof (induction ys)
    case Nil
    show ?case by simp
  next
    case (Cons y ys)
    have "(0 < cmp (fst x) (fst y)) = (fst y < fst x)"
      using Cons.prems \<open>\<forall>a\<in>fst ` set (x # xs). \<forall>b\<in>fst ` set (x # xs). (0 < cmp a b) = (b < a)\<close>
      by auto
    then show ?case using Cons by (auto simp: not_le)
  qed
  from this [of "sort_key fst xs"] show ?case
    by (auto simp: Array_sort_def ih [unfolded Array_sort_def])
qed

lemma generateCacheKey_no_params:
  "filter keep params = [] \<Longrightarrow> generateCacheKey cmp pfx params = pfx @ ''-''"
  by (simp add: generateCacheKey_def Array_sort_def)

text \<open>
  Claim C5, as the code has it. \<open>generateCacheKey\<close> sorts with \<open>localeCompare\<close>, the
  collation of the host. Whenever that comparator orders the keys that remain after
  filtering the way their byte values do, the result equals the reference definition
  (drop the entries whose value is \<open>undefined\<close> or the empty string, sort the remaining
  keys ascending by byte value, join as \<open>key=value\<close> with \<open>&\<close>, prefix with \<open>prefix-\<close>); and
  when no entry remains the result is exactly \<open>prefix-\<close>, whatever the comparator.
\<close>

theorem generateCacheKey_refines_spec:
  assumes "\<forall>a\<in>fst ` set (filter keep params). \<forall>b\<in>fst ` set (filter keep params).
             (0 < localeCompare a b) = (b < a)"
  shows "generateCacheKey localeCompare pfx params = buildKey_spec pfx params \<and>
         (filter keep params = [] \<longrightarrow> generateCacheKey localeCompare pfx params = pfx @ ''-'')"
proof -
  have "Array_sort localeCompare (filter keep params) = sort_key fst (filter keep params)"
    by (rule Array_sort_sort_key [OF assms])
  then have eq: "generateCacheKey localeCompare pfx params = buildKey_spec pfx params"
    by (simp add: generateCacheKey_def buildKey_spec_def)
  have "filter keep params = [] \<longrightarrow> generateCacheKey localeCompare pfx params = pfx @ ''-''"
    by (simp add: generateCacheKey_no_params)
  with eq show ?thesis by (rule conjI)
qed

theorem generateCacheKey_refines_spec_witness:
  "generateCacheKey localeCompare_letters ''douban''
      [(''type'', Str ''movie''), (''page'', Num 2), (''q'', Undefined), (''tag'', Str [])]
     = buildKey_spec ''douban''
      [(''type'', Str ''movie''), (''page'', Num 2), (''q'', Undefined), (''tag'', Str [])]
   \<and> generateCacheKey localeCompare_letters ''douban''
      [(''type'', Str ''movie''), (''page'', Num 2), (''q'', Undefined), (''tag'', Str [])]
     = ''douban-page=2&type=movie''"
proof -
  have h: "\<forall>a\<in>fst ` set (filter keep [(''type'', Str ''movie''), (''page'', Num 2), (''q'', Undefined), (''tag'', Str [])]).
           \<forall>b\<in>fst ` set (filter keep [(''type'', Str ''movie''), (''page'', Num 2), (''q'', Undefined), (''tag'', Str [])]).
             (0 < localeCompare_letters a b) = (b < a)"
    by code_simp
  have v: "buildKey_spec ''douban''
      [(''type'', Str ''movie''), (''page'', Num 2), (''q'', Undefined), (''tag'', Str [])]
     = ''douban-page=2&type=movie''"
    by code_simp
  show ?thesis
    using generateCacheKey_refines_spec [OF h, of "''douban''"] v by simp
qed

text \<open>
  Claim C5 as stated fails: with the keys \<open>a\<close> and \<open>B\<close> the collation puts \<open>a\<close> first,
  the byte order puts \<open>B\<close> first.
\<close>

theorem generateCacheKey_byte_order_counterexample:
  "generateCacheKey localeCompare_letters ''p'' [(''a'', Num 1), (''B'', Str ''x'')] = ''p-a=1&B=x'' \<and>
   buildKey_spec ''p'' [(''a'', Num 1), (''B'', Str ''x'')] = ''p-B=x&a=1''"
  by code_simp

text \<open>
  Claim C6, as the code has it. Let \<open>P1\<close> and \<open>P2\<close> be parameter maps (each key once)
  that have the same entries once the entries whose value is \<open>undefined\<close> or the empty
  string are removed, and let the comparator of the host order the remaining keys with no
  two different keys tied. Then \<open>generateCacheKey\<close> returns the same key for both, for
  every prefix: neither the insertion order nor the keys that are present with the value
  \<open>undefined\<close> matter.
\<close>

theorem generateCacheKey_deterministic:
  assumes "distinct (map fst P1)" and "distinct (map fst P2)"
    and "set (filter keep P1) = set (filter keep P2)"
    and "orders_keys localeCompare (fst ` set (filter keep P1))"
  shows "generateCacheKey localeCompare pfx P1 = generateCacheKey localeCompare pfx P2"
proof -
  let ?le = "\<lambda>p q. localeCompare (fst p) (fst q) \<le> 0"
  let ?K = "fst ` set (filter keep P1)"
  have d1: "distinct (map fst (filter keep P1))" and d2: "distinct (map fst (filter keep P2))"
    using assms(1,2) by (simp_all add: distinct_map_filter)
  have "Array_sort localeCompare (filter keep P1) = Array_sort localeCompare (filter keep P2)"
  proof (rule sorted_keys_unique [OF assms(4)])
    show "fst ` set (Array_sort localeCompare (filter keep P1)) \<subseteq> ?K"
      by (simp add: set_Array_sort)
    show "set (Array_sort localeCompare (filter keep P1)) = set (Array_sort localeCompare (filter keep P2))"
      using assms(3) by (simp add: set_Array_sort)
    show "distinct (map fst (Array_sort localeCompare (filter keep P1)))"
      using d1 by (simp add: distinct_keys_Array_sort)
    show "distinct (map fst (Array_sort localeCompare (filter keep P2)))"
      using d2 by (simp add: distinct_keys_Array_sort)
    show "sorted_wrt ?le (Array_sort localeCompare (filter keep P1))"
      by (rule sorted_Array_sort [OF assms(4)]) simp
    show "sorted_wrt ?le (Array_sort localeCompare (filter keep P2))"
      by (rule sorted_Array_sort [OF assms(4)]) (simp only: assms(3) subset_refl)
  qed
  then show ?thesis by (simp add: generateCacheKey_def)
qed

theorem generateCacheKey_deterministic_witness:
  "generateCacheKey localeCompare_letters ''douban''
      [(''type'', Str ''movie''), (''page'', Num 2), (''q'', Undefined)]
   = generateCacheKey localeCompare_letters ''douban''
      [(''tag'', Str []), (''page'', Num 2), (''type'', Str ''movie'')]"
proof -
  have 1: "distinct (map fst [(''type'', Str ''movie''), (''page'', Num 2), (''q'', Undefined)])"
    by simp
  have 2: "distinct (map fst [(''tag'', Str []), (''page'', Num 2), (''type'', Str ''movie'')])"
    by simp
  have 3: "set (filter keep [(''type'', Str ''movie''), (''page'', Num 2), (''q'', Undefined)])
         = set (filter keep [(''tag'', Str []), (''page'', Num 2), (''type'', Str ''movie'')])"
    by (auto simp: keep_def)
  have 4: "orders_keys localeCompare_letters
             (fst ` set (filter keep [(''type'', Str ''movie''), (''page'', Num 2), (''q'', Undefined)]))"
    by code_simp
  show ?thesis
    by (rule generateCacheKey_deterministic [OF 1 2 3 4])
qed

text \<open>
  Claim C6 as stated fails. The two maps \<open>tied_params_1\<close> and \<open>tied_params_2\<close> have each key
  once and the same entries, none of them removed; the comparator ties their two keys; the
  stable sort then keeps the insertion order, and the two keys built differ.
\<close>

theorem generateCacheKey_insertion_order_counterexample:
  "distinct (map fst tied_params_1) \<and> distinct (map fst tied_params_2) \<and>
   set (filter keep tied_params_1) = set (filter keep tied_params_2) \<and>
   localeCompare_ignorable ''a'' [CHR ''a'', CHR 0x01] = 0 \<and>
   generateCacheKey localeCompare_ignorable ''p'' tied_params_1
     = ''p-a=1&a'' @ [CHR 0x01] @ ''=2'' \<and>
   generateCacheKey localeCompare_ignorable ''p'' tied_params_2
     = ''p-a'' @ [CHR 0x01] @ ''=2&a=1''"
proof -
  have 1: "distinct (map fst tied_params_1) \<and> distinct (map fst tied_params_2)"
    by (simp add: tied_params_1_def tied_params_2_def)
  have 2: "set (filter keep tied_params_1) = set (filter keep tied_params_2)"
    by (auto simp: tied_params_1_def tied_params_2_def keep_def)
  have 3: "localeCompare_ignorable ''a'' [CHR ''a'', CHR 0x01] = 0"
    by code_simp
  have 4: "generateCacheKey localeCompare_ignorable ''p'' tied_params_1
     = ''p-a=1&a'' @ [CHR 0x01] @ ''=2''"
    by code_simp
  have 5: "generateCacheKey localeCompare_ignorable ''p'' tied_params_2
     = ''p-a'' @ [CHR 0x01] @ ''=2&a=1''"
    by code_simp
  show ?thesis using 1 2 3 4 5 by blast
qed

section \<open>Properties of the fetch coordinator\<close>

lemma fetchData_requestIdRef [simp]:
  "requestIdRef (fetchData js now opts ic h) = requestIdRef h + 1"
  by (simp add: fetchData_def Let_def invoke_fetchFn_def split: prod.splits option.splits)

lemma fetchData_currentParamsRef [simp]:
  "currentParamsRef (fetchData js now opts ic h) = js (dependencies opts)"
  by (simp add: fetchData_def Let_def invoke_fetchFn_def split: prod.splits option.splits)

lemma fetchData_isMountedRef [simp]:
  "isMountedRef (fetchData js now opts ic h) = isMountedRef h"
  by (simp add: fetchData_def Let_def invoke_fetchFn_def split: prod.splits option.splits)

lemma fetchData_debounceTimerRef [simp]:
  "debounceTimerRef (fetchData js now opts ic h) = debounceTimerRef h"
  by (simp add: fetchData_def Let_def invoke_fetchFn_def split: prod.splits option.splits)

lemma fetchData_rendered [simp]:
  "rendered (fetchData js now opts ic h) = rendered h"
  by (simp add: fetchData_def Let_def invoke_fetchFn_def split: prod.splits option.splits)

lemma fetchData_awaiting:
  "awaiting (fetchData js now opts ic h) = awaiting h \<or>
   awaiting (fetchData js now opts ic h) = awaiting h @ [new_request js opts h]"
  by (simp add: fetchData_def Let_def invoke_fetchFn_def new_request_def split: prod.splits option.splits)

lemma fetchData_resolved_refs [simp]:
  "requestIdRef (fetchData_resolved now r v h) = requestIdRef h"
  "currentParamsRef (fetchData_resolved now r v h) = currentParamsRef h"
  "isMountedRef (fetchData_resolved now r v h) = isMountedRef h"
  "debounceTimerRef (fetchData_resolved now r v h) = debounceTimerRef h"
  "awaiting (fetchData_resolved now r v h) = awaiting h"
  "rendered (fetchData_resolved now r v h) = rendered h"
  by (simp_all add: fetchData_resolved_def Let_def)

lemma fetchData_rejected_refs [simp]:
  "requestIdRef (fetchData_rejected r e h) = requestIdRef h"
  "currentParamsRef (fetchData_rejected r e h) = currentParamsRef h"
  "isMountedRef (fetchData_rejected r e h) = isMountedRef h"
  "debounceTimerRef (fetchData_rejected r e h) = debounceTimerRef h"
  "awaiting (fetchData_rejected r e h) = awaiting h"
  "rendered (fetchData_rejected r e h) = rendered h"
  "globalCache (fetchData_rejected r e h) = globalCache h"
  "st_data (fetchData_rejected r e h) = st_data h"
  by (simp_all add: fetchData_rejected_def Let_def)

lemma debounce_effect_refs [simp]:
  "requestIdRef (debounce_effect opts h) = requestIdRef h"
  "currentParamsRef (debounce_effect opts h) = currentParamsRef h"
  "isMountedRef (debounce_effect opts h) = isMountedRef h"
  "awaiting (debounce_effect opts h) = awaiting h"
  "globalCache (debounce_effect opts h) = globalCache h"
  "st_data (debounce_effect opts h) = st_data h"
  by (simp_all add: debounce_effect_def Let_def)


lemma step_currentParamsRef:
  "currentParamsRef (step js now ev h) \<noteq> currentParamsRef h \<Longrightarrow>
     (ev = TimerFires \<or> ev = Refresh) \<and> requestIdRef (step js now ev h) = requestIdRef h + 1"
  by (cases ev) (auto split: option.splits if_splits)



lemma hook_inv_mount: "hook_inv (mount js opts cache)"
  by (simp add: hook_inv_def mount_def debounce_effect_def Let_def)

lemma hook_inv_fetchData:
  assumes "hook_inv h"
  shows "hook_inv (fetchData js now opts ic h)"
proof -
  have *: "set (awaiting (fetchData js now opts ic h)) \<subseteq> insert (new_request js opts h) (set (awaiting h))"
    using fetchData_awaiting [of js now opts ic h] by auto
  show ?thesis
    unfolding hook_inv_def
  proof (intro conjI ballI impI)
    fix r assume "r \<in> set (awaiting (fetchData js now opts ic h))"
    then have "r = new_request js opts h \<or> r \<in> set (awaiting h)" using * by auto
    then show "0 < currentRequestId r"
      using assms by (auto simp: hook_inv_def new_request_def)
  next
    fix r assume "r \<in> set (awaiting (fetchData js now opts ic h))"
    then have "r = new_request js opts h \<or> r \<in> set (awaiting h)" using * by auto
    then show "currentRequestId r \<le> requestIdRef (fetchData js now opts ic h)"
      using assms by (auto simp: hook_inv_def new_request_def)
  next
    fix r assume "r \<in> set (awaiting (fetchData js now opts ic h))"
      and eq: "currentRequestId r = requestIdRef (fetchData js now opts ic h)"
    then have "r = new_request js opts h \<or> r \<in> set (awaiting h)" using * by auto
    then show "currentParams r = currentParamsRef (fetchData js now opts ic h)"
      using assms eq by (auto simp: hook_inv_def new_request_def)
  next
    assume "debounceTimerRef (fetchData js now opts ic h) \<noteq> None"
    then show "isMountedRef (fetchData js now opts ic h)"
      using assms by (simp add: hook_inv_def)
  qed
qed

lemma hook_inv_step:
  assumes "hook_inv h"
  shows "hook_inv (step js now ev h)"
proof (cases ev)
  case (Render opts)
  then show ?thesis using assms by (auto simp: hook_inv_def debounce_effect_def Let_def)
next
  case TimerFires
  show ?thesis
  proof (cases "debounceTimerRef h")
    case None
    then show ?thesis using assms TimerFires by simp
  next
    case (Some opts)
    have "hook_inv (h\<lparr>debounceTimerRef := None\<rparr>)" using assms by (auto simp: hook_inv_def)
    then show ?thesis using TimerFires Some by (simp add: hook_inv_fetchData)
  qed
next
  case (Resolves r v)
  have "hook_inv (h\<lparr>awaiting := remove1 r (awaiting h)\<rparr>)"
    using assms set_remove1_subset [of r "awaiting h"] by (auto simp: hook_inv_def)
  then have "hook_inv (fetchData_resolved now r v (h\<lparr>awaiting := remove1 r (awaiting h)\<rparr>))"
    by (simp add: hook_inv_def)
  then show ?thesis using Resolves assms by simp
next
  case (Rejects r e)
  have "hook_inv (h\<lparr>awaiting := remove1 r (awaiting h)\<rparr>)"
    using assms set_remove1_subset [of r "awaiting h"] by (auto simp: hook_inv_def)
  then have "hook_inv (fetchData_rejected r e (h\<lparr>awaiting := remove1 r (awaiting h)\<rparr>))"
    by (simp add: hook_inv_def)
  then show ?thesis using Rejects assms by simp
next
  case Refresh
  then show ?thesis using assms by (simp add: hook_inv_fetchData)
next
  case ClearCache
  then show ?thesis using assms by (simp add: hook_inv_def)
next
  case Unmount
  then show ?thesis using assms by (simp add: hook_inv_def)
qed

lemma reachable_hook_inv: "reachable js h \<Longrightarrow> hook_inv h"
  by (induction rule: reachable.induct) (simp_all add: hook_inv_mount hook_inv_step)

lemma UnifiedCache_set_memory:
  "enableMemory (config c) \<Longrightarrow>
   Map_get (store (memoryCache (UnifiedCache_set now k d t c))) k = Some \<lparr>data = d, timestamp = now, ttl = t\<rparr>"
  by (simp add: UnifiedCache_set_def Let_def MemoryCache_set_stores)

lemma TimerFires_dispatch:
  assumes "awaiting (step js t TimerFires h) = awaiting h @ [r]"
  shows "\<exists>opts. debounceTimerRef h = Some opts \<and> r = new_request js opts h"
proof (cases "debounceTimerRef h")
  case None
  then show ?thesis using assms by simp
next
  case (Some opts)
  then have "awaiting (fetchData js t opts False (h\<lparr>debounceTimerRef := None\<rparr>)) = awaiting h @ [r]"
    using assms by simp
  then have "r = new_request js opts (h\<lparr>debounceTimerRef := None\<rparr>)"
    using fetchData_awaiting [of js t opts False "h\<lparr>debounceTimerRef := None\<rparr>"] by auto
  then show ?thesis using Some by (simp add: new_request_def)
qed

lemma resolved_stale:
  "currentRequestId r \<noteq> requestIdRef h \<Longrightarrow> fetchData_resolved now r v h = h"
  by (simp add: fetchData_resolved_def)


lemma step_Resolves_stale:
  assumes "currentRequestId r \<noteq> requestIdRef h"
  shows "step js t (Resolves r v) h = h\<lparr>awaiting := remove1 r (awaiting h)\<rparr>"
proof (cases "r \<in> set (awaiting h)")
  case True
  then show ?thesis using assms by (simp add: resolved_stale)
next
  case False
  then show ?thesis by (simp add: remove1_idem)
qed



text \<open>
  Claim C8, as the code has it. When the producer of a call rejects and the call passes
  the validity check of the \<open>catch\<close> block (its request id is the current one and the hook is
  mounted), the error state becomes the message of the rejection if it is an \<open>Error\<close>, and
  the fixed text \<open>unknown_error\<close> if it is any other value; loading is cleared; the published
  data and the cache are left exactly as they were.
\<close>

theorem rejection_leaves_cache_untouched:
  assumes "currentRequestId r = requestIdRef h" and "isMountedRef h"
  shows "st_error (fetchData_rejected r e h) =
           Some (case e of ErrorObject message \<Rightarrow> message | OtherValue x \<Rightarrow> unknown_error) \<and>
         \<not> st_loading (fetchData_rejected r e h) \<and>
         globalCache (fetchData_rejected r e h) = globalCache h \<and>
         st_data (fetchData_rejected r e h) = st_data h \<and>
         globalCache (step js now (Rejects r e) h) = globalCache h"
  using assms by (cases "r \<in> set (awaiting h)") (simp_all add: fetchData_rejected_def Let_def)

text \<open>
  Claim C10. In every reachable state, a suspended call whose request id equals the
  request counter carries the stored snapshot; and an event changes the stored snapshot
  only if it is a fetch dispatch (the timer firing, or \<open>refresh\<close>), in which case the same
  step increments the request counter. So the snapshot test of the stale-response guard
  never rejects a result that the counter test lets through.
\<close>

theorem snapshot_follows_request_counter:
  assumes "reachable js h"
  shows "(\<forall>r\<in>set (awaiting h). currentRequestId r = requestIdRef h \<longrightarrow> currentParams r = currentParamsRef h) \<and>
         (\<forall>now ev. currentParamsRef (step js now ev h) \<noteq> currentParamsRef h \<longrightarrow>
            (ev = TimerFires \<or> ev = Refresh) \<and> requestIdRef (step js now ev h) = requestIdRef h + 1)"
  using reachable_hook_inv [OF assms] step_currentParamsRef [of js _ _ h]
  by (simp add: hook_inv_def)

text \<open>
  Claim C1. Let the timer fire in a mounted hook and start the producer for \<open>A\<close>
  (\<open>rA\<close>); let the dependencies change to those of \<open>optsB\<close>; let the timer fire again and
  start the producer for \<open>B\<close> (\<open>rB\<close>); let \<open>B\<close>'s producer resolve with \<open>vB\<close> and then
  \<open>A\<close>'s with \<open>vA\<close>. Then \<open>B\<close>'s value is published (not from cache); the late resolution
  of \<open>A\<close> changes nothing but the list of suspended calls, so the published data is still
  \<open>vB\<close> and the cache is the one \<open>B\<close>'s resolution left; and with caching and the memory
  tier enabled the memory tier holds \<open>vB\<close> under \<open>B\<close>'s key.
\<close>

theorem stale_response_discarded:
  assumes mounted: "isMountedRef h0"
    and A: "h1 = step js t1 TimerFires h0" "awaiting h1 = awaiting h0 @ [rA]"
    and chg: "h2 = step js t2 (Render optsB) h1"
    and B: "h3 = step js t3 TimerFires h2" "awaiting h3 = awaiting h2 @ [rB]"
    and resB: "h4 = step js t4 (Resolves rB vB) h3"
    and resA: "h5 = step js t5 (Resolves rA vA) h4"
  shows "st_data h4 = Some vB \<and> \<not> st_fromCache h4 \<and>
         h5 = h4\<lparr>awaiting := remove1 rA (awaiting h4)\<rparr> \<and>
         st_data h5 = Some vB \<and> globalCache h5 = globalCache h4 \<and>
         closure rB = optsB \<and>
         (enableCache optsB \<and> enableMemory (config (globalCache h3)) \<longrightarrow>
            Map_get (store (memoryCache (globalCache h5))) (cacheKey optsB)
              = Some \<lparr>data = vB, timestamp = t4, ttl = opt_ttl optsB\<rparr>)"
proof -
  obtain oA where oA: "debounceTimerRef h0 = Some oA" "rA = new_request js oA h0"
    using TimerFires_dispatch A by blast
  have h1: "h1 = fetchData js t1 oA False (h0\<lparr>debounceTimerRef := None\<rparr>)"
    using A(1) oA(1) by simp
  have h1_refs: "requestIdRef h1 = requestIdRef h0 + 1" "isMountedRef h1" "debounceTimerRef h1 = None"
    using mounted by (simp_all add: h1)
  have h2_refs: "requestIdRef h2 = requestIdRef h0 + 1" "isMountedRef h2"
      "debounceTimerRef h2 = None \<or> debounceTimerRef h2 = Some optsB"
    using h1_refs by (auto simp: chg debounce_effect_def Let_def)
  obtain oB where oB: "debounceTimerRef h2 = Some oB" "rB = new_request js oB h2"
    using TimerFires_dispatch B by blast
  have oB_eq: "oB = optsB" using oB(1) h2_refs(3) by auto
  have h3: "h3 = fetchData js t3 optsB False (h2\<lparr>debounceTimerRef := None\<rparr>)"
    using B(1) oB(1) oB_eq by simp
  have rB: "currentRequestId rB = requestIdRef h0 + 2" "currentParams rB = js (dependencies optsB)"
      "closure rB = optsB"
    using oB(2) oB_eq h2_refs(1) by (simp_all add: new_request_def)
  have rA: "currentRequestId rA = requestIdRef h0 + 1"
    using oA(2) by (simp add: new_request_def)
  have h3_refs: "requestIdRef h3 = requestIdRef h0 + 2" "isMountedRef h3"
      "currentParamsRef h3 = js (dependencies optsB)"
    using h2_refs by (simp_all add: h3)
  have rB_in: "rB \<in> set (awaiting h3)" using B(2) by simp
  let ?h3' = "h3\<lparr>awaiting := remove1 rB (awaiting h3)\<rparr>"
  have h4: "h4 = fetchData_resolved t4 rB vB ?h3'"
    using resB rB_in by simp
  have h4_data: "st_data h4 = Some vB" "\<not> st_fromCache h4"
    using rB h3_refs by (simp_all add: h4 fetchData_resolved_def Let_def)
  have h4_cache: "enableCache optsB \<Longrightarrow>
      globalCache h4 = UnifiedCache_set t4 (cacheKey optsB) vB (opt_ttl optsB) (globalCache h3)"
    using rB h3_refs by (simp add: h4 fetchData_resolved_def Let_def)
  have h4_id: "requestIdRef h4 = requestIdRef h0 + 2"
    using h3_refs by (simp add: h4)
  have stale: "currentRequestId rA \<noteq> requestIdRef h4"
    using rA h4_id by simp
  have h5: "h5 = h4\<lparr>awaiting := remove1 rA (awaiting h4)\<rparr>"
    unfolding resA by (rule step_Resolves_stale [OF stale])
  have mem: "Map_get (store (memoryCache (globalCache h5))) (cacheKey optsB)
              = Some \<lparr>data = vB, timestamp = t4, ttl = opt_ttl optsB\<rparr>"
    if "enableCache optsB" "enableMemory (config (globalCache h3))"
  proof -
    have "globalCache h5 = UnifiedCache_set t4 (cacheKey optsB) vB (opt_ttl optsB) (globalCache h3)"
      using h4_cache that(1) by (simp add: h5)
    then show ?thesis using that(2) by (simp add: UnifiedCache_set_memory)
  qed
  show ?thesis
    using h4_data h5 mem rB(3) by simp
qed

lemmas sample_defs = sample_stringify_def optsA_def optsB_def opts_k_def request_A_def request_B_def request_k_def
  empty_cache_def sample_h0_def sample_h1_def sample_h2_def sample_h3_def sample_h4_def sample_h5_def
  sample_refresh_def sample_cache_def

lemmas eval_defs = mount_def debounce_effect_def fetchData_def fetchData_resolved_def fetchData_rejected_def
  invoke_fetchFn_def UnifiedCache_new_def UnifiedCache_get_def UnifiedCache_set_def globalCache_config_def
  MemoryCache_new_def MemoryCache_get_def MemoryCache_set_def Map_get_def Map_first_key_def Map_delete_def
  LocalStorageCache_get_def LocalStorageCache_set_def getItem_def setItem_def getFullKey_def
  expired_def elapsed_def Let_def

lemma sample_h1_fields:
  "awaiting sample_h1 = [request_A]" "requestIdRef sample_h1 = 1" "isMountedRef sample_h1"
  "debounceTimerRef sample_h1 = None" "currentParamsRef sample_h1 = ''movie''"
  "rendered sample_h1 = optsA"
  "awaiting sample_h0 = []" "isMountedRef sample_h0"
  by (simp_all add: sample_defs eval_defs)

lemma sample_h2_fields:
  "awaiting sample_h2 = [request_A]" "requestIdRef sample_h2 = 1" "isMountedRef sample_h2"
  "debounceTimerRef sample_h2 = Some optsB" "currentParamsRef sample_h2 = ''movie''"
  unfolding sample_h2_def 
  by (simp_all add: sample_h1_fields debounce_effect_def Let_def) (simp_all add: optsA_def optsB_def)

lemma sample_h3_fields:
  "awaiting sample_h3 = [request_A, request_B]" "requestIdRef sample_h3 = 2" "isMountedRef sample_h3"
   "currentParamsRef sample_h3 = ''tv''"
  by (simp_all add: sample_defs eval_defs)




lemma reachable_sample_h3: "reachable sample_stringify sample_h3"
  unfolding sample_h3_def sample_h2_def sample_h1_def sample_h0_def
  by (intro reachable_step reachable_mount)

theorem stale_response_discarded_witness:
  "st_data sample_h4 = Some 2 \<and> st_data sample_h5 = Some 2 \<and>
   Map_get (store (memoryCache (globalCache sample_h5))) ''douban-tv''
     = Some \<lparr>data = 2, timestamp = 300, ttl = 7200\<rparr>"
proof -
  have 1: "isMountedRef sample_h0" by (simp add: sample_h1_fields)
  have 2: "awaiting sample_h1 = awaiting sample_h0 @ [request_A]" by (simp add: sample_h1_fields)
  have 3: "awaiting sample_h3 = awaiting sample_h2 @ [request_B]"
    by (simp add: sample_h3_fields sample_h2_fields)
  have 4: "enableCache optsB \<and> enableMemory (config (globalCache sample_h3))"
    by (simp add: sample_defs eval_defs)
  note th = stale_response_discarded [OF 1 sample_h1_def 2 sample_h2_def sample_h3_def 3 sample_h4_def sample_h5_def]
  from th 4 have "Map_get (store (memoryCache (globalCache sample_h5))) (cacheKey optsB)
              = Some \<lparr>data = 2, timestamp = 300, ttl = opt_ttl optsB\<rparr>"
    by blast
  then have m: "Map_get (store (memoryCache (globalCache sample_h5))) ''douban-tv''
     = Some \<lparr>data = 2, timestamp = 300, ttl = 7200\<rparr>"
    by (simp add: optsB_def)
  from th have "st_data sample_h4 = Some 2" and "st_data sample_h5 = Some 2"
    by blast+
  with m show ?thesis by blast
qed


lemma sample_refresh_fields:
  "awaiting sample_refresh = [request_k]" "requestIdRef sample_refresh = 1" "isMountedRef sample_refresh"
  "getItem ''deco-cache:k'' (the (localStorage (globalCache sample_refresh)))
     = Some (Entry \<lparr>data = 7, timestamp = 0, ttl = 7200\<rparr>)"
  by (simp_all add: sample_defs eval_defs)

theorem rejection_leaves_cache_untouched_witness:
  "st_error (fetchData_rejected request_k (ErrorObject ''HTTP 500'') sample_refresh) = Some ''HTTP 500'' \<and>
   getItem ''deco-cache:k''
     (the (localStorage (globalCache (step sample_stringify 2000 (Rejects request_k (ErrorObject ''HTTP 500'')) sample_refresh))))
     = Some (Entry \<lparr>data = 7, timestamp = 0, ttl = 7200\<rparr>)"
proof -
  have 1: "currentRequestId request_k = requestIdRef sample_refresh"
    by (simp add: sample_refresh_fields request_k_def)
  have 2: "isMountedRef sample_refresh" by (simp add: sample_refresh_fields)
  show ?thesis
    using rejection_leaves_cache_untouched [OF 1 2, of "ErrorObject ''HTTP 500''" sample_stringify 2000]
    by (simp add: sample_refresh_fields)
qed

text \<open>
  Claim C8 as stated fails on a rejection that is not an \<open>Error\<close>: the producer rejects with
  the string \<open>timeout\<close>, the call passes the validity check, and the error state is the
  fixed text, not the rejection.
\<close>

theorem rejection_not_verbatim_counterexample:
  "request_k \<in> set (awaiting sample_refresh) \<and>
   currentRequestId request_k = requestIdRef sample_refresh \<and> isMountedRef sample_refresh \<and>
   st_error (step sample_stringify 2000 (Rejects request_k (OtherValue ''timeout'')) sample_refresh)
     = Some unknown_error \<and> unknown_error \<noteq> ''timeout''"
  by (simp add: sample_refresh_fields fetchData_rejected_def request_k_def unknown_error_def)


theorem snapshot_follows_request_counter_witness:
  "request_B \<in> set (awaiting sample_h3) \<and> currentRequestId request_B = requestIdRef sample_h3 \<and>
   currentParams request_B = currentParamsRef sample_h3"
  using snapshot_follows_request_counter [OF reachable_sample_h3]
  by (simp add: sample_h3_fields request_B_def)

end
